theory Spec2Isabelle
  imports Complex_Main "HOL-Library.Multiset"
begin

section \<open>JavaScript values\<close>

text \<open>
  A JavaScript \<open>number\<close> is either \<open>NaN\<close> or a numeric value; every comparison with
  \<open>NaN\<close> is false.  A value of TypeScript type \<open>any\<close> that the program only stores and
  forwards is one of the primitive values below.  An optional property (\<open>x?: T\<close>) is an
  \<open>option\<close>; a string is truthy when it is not empty.
\<close>

datatype number = NaN | Num real

fun num_eq :: "number \<Rightarrow> number \<Rightarrow> bool" where
  "num_eq (Num a) (Num b) = (a = b)"
| "num_eq _ _ = False"

fun num_lt :: "number \<Rightarrow> number \<Rightarrow> bool" where
  "num_lt (Num a) (Num b) = (a < b)"
| "num_lt _ _ = False"

datatype jsval = Undefined | Str string | Number number | Boolean bool

definition js_truthy :: "jsval \<Rightarrow> bool" where
  "js_truthy v =
     (case v of
        Undefined \<Rightarrow> False
      | Str s \<Rightarrow> s \<noteq> []
      | Number n \<Rightarrow> \<not> (n = NaN \<or> n = Num 0)
      | Boolean b \<Rightarrow> b)"

definition truthy :: "string option \<Rightarrow> bool" where
  "truthy s = (case s of None \<Rightarrow> False | Some t \<Rightarrow> t \<noteq> [])"

fun startsWith :: "string \<Rightarrow> string \<Rightarrow> bool" where
  "startsWith s [] = True"
| "startsWith [] (p # ps) = False"
| "startsWith (x # xs) (p # ps) = (x = p \<and> startsWith xs ps)"

section \<open>Data model (types.ts)\<close>

datatype Severity = High | Medium | Low

record SpreadsheetCell =
  address :: string
  formula :: string
  cell_value :: jsval

text \<open>
  An entry of \<open>ExcelAnalysisResult.discrepancies\<close> has the three fields of a
  \<open>SpreadsheetCell\<close> and four more.
\<close>

record Discrepancy = SpreadsheetCell +
  reason :: string
  severity :: Severity
  suggestedFormula :: "string option"
  suggestedValue :: "string option"

record ExcelAnalysisResult =
  report_id :: "string option"
  systemId :: "string option"
  date :: "string option"
  fileName :: string
  retentionDate :: "string option"
  totalFormulas :: nat
  discrepancies :: "Discrepancy list"
  isValid :: bool
  summary :: string
  referencedSopTitle :: "string option"

section \<open>The worksheet object\<close>

text \<open>
  The worksheet produced by the spreadsheet library is an object indexed by strings.
  \<open>ws_entries ws k\<close> is what the expression \<open>ws[k]\<close> yields, \<open>None\<close> standing for
  \<open>undefined\<close>: at a cell address a cell object with the formula \<open>f\<close> (without the
  leading \<open>=\<close>), the value \<open>v\<close> and the comments \<open>c\<close>; at the sheet's own keys such as
  \<open>!ref\<close> a primitive (the range as text) or an array or object (\<open>!merges\<close>, \<open>!cols\<close>);
  at the names every object inherits (\<open>constructor\<close>, \<open>toString\<close>, ...) a function or
  object.  An \<open>Obj\<close> is an array, function or object that is not a cell and has none
  of \<open>f\<close>, \<open>v\<close>, \<open>c\<close>.  \<open>ws_ref\<close> is the range that \<open>!ref\<close> denotes, decoded
  (start row, start column, end row, end column; zero-based).
\<close>

record ws_cell =
  cell_f :: "string option"
  cell_v :: jsval
  cell_c :: "string list option"

datatype ws_entry = Cell ws_cell | Prim jsval | Obj

record range =
  s_r :: nat
  s_c :: nat
  e_r :: nat
  e_c :: nat

record worksheet =
  ws_ref :: "range option"
  ws_entries :: "string \<rightharpoonup> ws_entry"

text \<open>Truthiness of what a key holds, and what reading \<open>.f\<close> and \<open>.v\<close> of it yields.\<close>

definition entry_truthy :: "ws_entry \<Rightarrow> bool" where
  "entry_truthy e = (case e of Cell c \<Rightarrow> True | Prim v \<Rightarrow> js_truthy v | Obj \<Rightarrow> True)"

definition entry_f :: "ws_entry \<Rightarrow> string option" where
  "entry_f e = (case e of Cell c \<Rightarrow> cell_f c | Prim v \<Rightarrow> None | Obj \<Rightarrow> None)"

definition entry_v :: "ws_entry \<Rightarrow> jsval" where
  "entry_v e = (case e of Cell c \<Rightarrow> cell_v c | Prim v \<Rightarrow> Undefined | Obj \<Rightarrow> Undefined)"

text \<open>
  \<open>XLSX.utils.encode_cell\<close>: the column in letters (A..Z, AA, ...) followed by the
  row number counted from 1.
\<close>

function encode_col_from :: "nat \<Rightarrow> string \<Rightarrow> string" where
  "encode_col_from col s =
     (if col = 0 then s
      else encode_col_from ((col - 1) div 26)
             ((''ABCDEFGHIJKLMNOPQRSTUVWXYZ'' ! ((col - 1) mod 26)) # s))"
  by pat_completeness auto
termination
  by (relation "measure (\<lambda>(col, s). col)") auto

definition encode_col :: "nat \<Rightarrow> string" where
  "encode_col col = encode_col_from (Suc col) []"

function decimal_from :: "nat \<Rightarrow> string \<Rightarrow> string" where
  "decimal_from n s =
     (if n < 10 then (''0123456789'' ! n) # s
      else decimal_from (n div 10) ((''0123456789'' ! (n mod 10)) # s))"
  by pat_completeness auto
termination
  by (relation "measure (\<lambda>(n, s). n)") auto

definition encode_row :: "nat \<Rightarrow> string" where
  "encode_row row = decimal_from (Suc row) []"

definition encode_cell :: "nat \<Rightarrow> nat \<Rightarrow> string" where
  "encode_cell C R = encode_col C @ encode_row R"

section \<open>Formula extraction (SystemList.tsx, handleFileUpload)\<close>

text \<open>
  The body of the inner loop: the formula text of a cell is \<open>"=" + cell.f\<close> when
  \<open>cell.f\<close> is truthy, else \<open>cell.v\<close> when that is a string starting with \<open>=\<close>, else
  empty.
\<close>

definition cell_formula :: "ws_entry \<Rightarrow> string" where
  "cell_formula cell =
     (if truthy (entry_f cell) then ''='' @ the (entry_f cell)
      else (case entry_v cell of
              Str s \<Rightarrow> if startsWith s ''='' then s else []
            | _ \<Rightarrow> []))"

definition scan_cell :: "worksheet \<Rightarrow> nat \<Rightarrow> nat \<Rightarrow> SpreadsheetCell list" where
  "scan_cell ws R C =
     (let cell_ref = encode_cell C R in
      case ws_entries ws cell_ref of
        None \<Rightarrow> []
      | Some cell \<Rightarrow>
          if entry_truthy cell
          then (let formula = cell_formula cell in
                if formula \<noteq> []
                then [\<lparr>address = cell_ref, formula = formula, cell_value = entry_v cell\<rparr>]
                else [])
          else [])"

definition sheet_range :: "worksheet \<Rightarrow> range" where
  "sheet_range ws =
     (case ws_ref ws of
        None \<Rightarrow> \<lparr>s_r = 0, s_c = 0, e_r = 0, e_c = 0\<rparr>
      | Some r \<Rightarrow> r)"

text \<open>The two nested \<open>for\<close> loops: rows outside, columns inside, both bounds inclusive.\<close>

definition extract_cells :: "worksheet \<Rightarrow> SpreadsheetCell list" where
  "extract_cells ws =
     (let rng = sheet_range ws in
      concat (map (\<lambda>R. concat (map (\<lambda>C. scan_cell ws R C) [s_c rng..<Suc (e_c rng)]))
                  [s_r rng..<Suc (e_r rng)]))"

section \<open>The spreadsheet-validate operation (geminiService.ts, validateSpreadsheet)\<close>

text \<open>
  The external analyzer is a parameter.  A request carries the data the prompt embeds:
  the rule context and the capped cell list.  The answer is seen by the program only
  through \<open>JSON.parse(response.text || '{}')\<close>, so a reply is classified by what that
  expression does with it: the call throws; the text is missing or empty; the text is
  not JSON; or the text is JSON for \<open>null\<close> or for an object whose \<open>discrepancies\<close>
  (an array, when present) and \<open>summary\<close> (a string, when present) are given.  The
  first statement of the \<open>try\<close> block, \<open>new GoogleGenAI({apiKey: process.env.API_KEY})\<close>,
  either throws (as it does when no API key is configured) or yields the client whose
  \<open>generateContent\<close> is the analyzer.
\<close>

record prompt =
  prompt_sopContext :: "string option"
  prompt_cells :: "SpreadsheetCell list"

datatype json = JNull | JObject "Discrepancy list option" "string option"

datatype reply = CallThrows | NoText | NotJson | Json json

datatype client = ClientThrows | Client "prompt \<Rightarrow> reply"

datatype js_error = ClientError | ApiError | SyntaxError | TypeError | RangeError

definition formulaCells :: "SpreadsheetCell list \<Rightarrow> SpreadsheetCell list" where
  "formulaCells cells = take 50 (filter (\<lambda>c. formula c \<noteq> []) cells)"

definition no_formulas_result :: "string \<Rightarrow> ExcelAnalysisResult" where
  "no_formulas_result fname =
     \<lparr>report_id = None, systemId = None, date = None, fileName = fname,
      retentionDate = None, totalFormulas = 0, discrepancies = [], isValid = True,
      summary = ''No formulas found in the spreadsheet.'', referencedSopTitle = None\<rparr>"

definition failure_discrepancy :: Discrepancy where
  "failure_discrepancy =
     \<lparr>address = ''System'', formula = ''N/A'', cell_value = Str ''Error'',
      reason = ''AI Analysis Failed'', severity = High,
      suggestedFormula = None, suggestedValue = None\<rparr>"

definition failure_result :: "string \<Rightarrow> ExcelAnalysisResult" where
  "failure_result fname =
     \<lparr>report_id = None, systemId = None, date = None, fileName = fname,
      retentionDate = None, totalFormulas = 0, discrepancies = [failure_discrepancy],
      isValid = False, summary = ''Could not perform AI validation.'',
      referencedSopTitle = None\<rparr>"

text \<open>\<open>JSON.parse(response.text || '{}')\<close> after the awaited call.\<close>

definition parse_reply :: "reply \<Rightarrow> js_error + json" where
  "parse_reply r =
     (case r of
        CallThrows \<Rightarrow> Inl ApiError
      | NoText \<Rightarrow> Inr (JObject None None)
      | NotJson \<Rightarrow> Inl SyntaxError
      | Json j \<Rightarrow> Inr j)"

text \<open>The object literal returned on success; reading a property of \<open>null\<close> throws.\<close>

definition analysis_result :: "string \<Rightarrow> nat \<Rightarrow> json \<Rightarrow> js_error + ExcelAnalysisResult" where
  "analysis_result fname n j =
     (case j of
        JNull \<Rightarrow> Inl TypeError
      | JObject ds sm \<Rightarrow>
          Inr \<lparr>report_id = None, systemId = None, date = None, fileName = fname,
               retentionDate = None, totalFormulas = n,
               discrepancies = (case ds of None \<Rightarrow> [] | Some d \<Rightarrow> d),
               isValid = (length (case ds of None \<Rightarrow> [] | Some d \<Rightarrow> d) = 0),
               summary = (if truthy sm then the sm else ''Analysis complete.''),
               referencedSopTitle = None\<rparr>)"

text \<open>
  The \<open>try\<close> block: the outcome (a thrown error or the returned value) and the list of
  requests sent to the analyzer.
\<close>

definition validate_try ::
  "client \<Rightarrow> string \<Rightarrow> SpreadsheetCell list \<Rightarrow> string option
     \<Rightarrow> (js_error + ExcelAnalysisResult) \<times> prompt list" where
  "validate_try newClient fname cells sopContext =
     (case newClient of
        ClientThrows \<Rightarrow> (Inl ClientError, [])
      | Client generateContent \<Rightarrow>
          (let fcells = formulaCells cells in
           if length fcells = 0 then (Inr (no_formulas_result fname), [])
           else
             (let p = \<lparr>prompt_sopContext = sopContext, prompt_cells = fcells\<rparr> in
              (case parse_reply (generateContent p) of
                 Inl e \<Rightarrow> Inl e
               | Inr j \<Rightarrow> analysis_result fname (length fcells) j,
               [p]))))"

text \<open>The whole function: the \<open>catch\<close> block turns every thrown error into the failure result.\<close>

definition validateSpreadsheet ::
  "client \<Rightarrow> string \<Rightarrow> SpreadsheetCell list \<Rightarrow> string option
     \<Rightarrow> ExcelAnalysisResult \<times> prompt list" where
  "validateSpreadsheet newClient fname cells sopContext =
     (case validate_try newClient fname cells sopContext of
        (Inl e, sent) \<Rightarrow> (failure_result fname, sent)
      | (Inr res, sent) \<Rightarrow> (res, sent))"

section \<open>Corrected-file regeneration (SystemList.tsx, handleDownloadCorrectedExcel)\<close>

text \<open>
  \<open>suggestedFormula.replace('=', '')\<close> with a string pattern replaces the first
  occurrence only: it deletes the first \<open>=\<close> of the text, wherever it stands.
\<close>

definition replace_eq :: "string \<Rightarrow> string" where
  "replace_eq s = remove1 (CHR ''='') s"

definition correction_note :: "Discrepancy \<Rightarrow> string" where
  "correction_note disc = ''MDPC Correction: '' @ reason disc"

text \<open>The assignments to \<open>f\<close> and \<open>v\<close> of the addressed cell.\<close>

definition write_suggestion :: "Discrepancy \<Rightarrow> ws_cell \<Rightarrow> ws_cell" where
  "write_suggestion disc cell =
     (if truthy (suggestedFormula disc)
      then cell\<lparr>cell_f := Some (replace_eq (the (suggestedFormula disc))), cell_v := Undefined\<rparr>
      else if truthy (suggestedValue disc)
      then cell\<lparr>cell_v := Str (the (suggestedValue disc)), cell_f := None\<rparr>
      else cell)"

text \<open>\<open>if (!cell.c) cell.c = []; cell.c.push({t: ...})\<close>; a comment is kept as its text.\<close>

definition push_comment :: "string \<Rightarrow> ws_cell \<Rightarrow> ws_cell" where
  "push_comment t cell =
     cell\<lparr>cell_c := Some ((case cell_c cell of None \<Rightarrow> [] | Some cs \<Rightarrow> cs) @ [t])\<rparr>"

text \<open>
  The body of the \<open>forEach\<close> callback.  The guard \<open>if (!ws[disc.address]) return\<close>
  lets every truthy value through.  On a cell the writes take effect.  On a primitive
  (the text under \<open>!ref\<close>, say) the first assignment throws a \<open>TypeError\<close>, the module
  being strict code.  On any other object the writes land on that object, which is not
  a cell: the run stops there with \<open>NonCellWrite\<close>, and what the library then writes
  is not described.
\<close>

datatype stop = Thrown js_error | NonCellWrite

definition apply_correction ::
  "(string \<rightharpoonup> ws_entry) \<Rightarrow> Discrepancy \<Rightarrow> stop + (string \<rightharpoonup> ws_entry)" where
  "apply_correction m disc =
     (if truthy (suggestedValue disc) \<or> truthy (suggestedFormula disc)
      then (case m (address disc) of
              None \<Rightarrow> Inr m
            | Some (Cell cell) \<Rightarrow>
                Inr (m(address disc \<mapsto>
                       Cell (push_comment (correction_note disc) (write_suggestion disc cell))))
            | Some (Prim v) \<Rightarrow> if js_truthy v then Inl (Thrown TypeError) else Inr m
            | Some Obj \<Rightarrow> Inl NonCellWrite)
      else Inr m)"

text \<open>The \<open>forEach\<close> loop: it ends at the first callback that does not return.\<close>

fun apply_all ::
  "(string \<rightharpoonup> ws_entry) \<Rightarrow> Discrepancy list \<Rightarrow> stop + (string \<rightharpoonup> ws_entry)" where
  "apply_all m [] = Inr m"
| "apply_all m (disc # discs) =
     (case apply_correction m disc of
        Inl e \<Rightarrow> Inl e
      | Inr m' \<Rightarrow> apply_all m' discs)"

definition apply_corrections :: "worksheet \<Rightarrow> Discrepancy list \<Rightarrow> stop + worksheet" where
  "apply_corrections ws discs =
     (case apply_all (ws_entries ws) discs of
        Inl e \<Rightarrow> Inl e
      | Inr m \<Rightarrow> Inr (ws\<lparr>ws_entries := m\<rparr>))"

text \<open>
  The handler.  Nothing happens unless the original data, the analysis result and the
  uploaded file are all present.  Otherwise the first sheet is corrected and written
  under the name \<open>Corrected_<file name>\<close>; an exception on the way is caught, a message
  is shown and no file is written.  The original data is given as the worksheet that
  reading it yields.
\<close>

datatype download = NoAction | Alerted | Written string worksheet | WroteToNonCell

definition handleDownloadCorrectedExcel ::
  "worksheet option \<Rightarrow> ExcelAnalysisResult option \<Rightarrow> string option \<Rightarrow> download" where
  "handleDownloadCorrectedExcel originalExcelData excelResult currentExcelFile =
     (case (originalExcelData, excelResult, currentExcelFile) of
        (Some ws, Some res, Some fname) \<Rightarrow>
          (case apply_corrections ws (discrepancies res) of
             Inr ws' \<Rightarrow> Written (''Corrected_'' @ fname) ws'
           | Inl (Thrown e) \<Rightarrow> Alerted
           | Inl NonCellWrite \<Rightarrow> WroteToNonCell)
      | _ \<Rightarrow> NoAction)"

section \<open>Progress updates (App.tsx, handleUpdateProgress)\<close>

datatype SystemType = WATER_SYSTEM | HVAC | LAB_EQUIPMENT | MONITORING | SOFTWARE

datatype ValidationStage = URS | IQ | OQ | PQ | VSR

datatype ComplianceStatus = COMPLIANT | IN_PROGRESS | DEVIATION | NOT_STARTED

datatype RiskLevel = RiskHigh | RiskMedium | RiskLow

record PharmaSystem =
  sys_id :: string
  sys_name :: string
  sys_type :: SystemType
  location :: string
  riskLevel :: RiskLevel
  currentStage :: ValidationStage
  status :: ComplianceStatus
  progress :: number
  lastValidationDate :: string
  deviationsCount :: number

definition new_status :: "ComplianceStatus \<Rightarrow> number \<Rightarrow> ComplianceStatus" where
  "new_status old newProgress =
     (if num_eq newProgress (Num 100) then COMPLIANT
      else if num_lt (Num 0) newProgress \<and> num_lt newProgress (Num 100)
      then (if old \<noteq> DEVIATION then IN_PROGRESS else old)
      else if num_eq newProgress (Num 0) then NOT_STARTED
      else old)"

definition handleUpdateProgress :: "PharmaSystem list \<Rightarrow> string \<Rightarrow> number \<Rightarrow> PharmaSystem list" where
  "handleUpdateProgress systems ident newProgress =
     map (\<lambda>sys. if sys_id sys = ident
                 then sys\<lparr>progress := newProgress, status := new_status (status sys) newProgress\<rparr>
                 else sys)
         systems"

text \<open>A sequence of progress updates, applied one after the other.\<close>

definition apply_updates :: "PharmaSystem list \<Rightarrow> (string \<times> number) list \<Rightarrow> PharmaSystem list" where
  "apply_updates systems ups = foldl (\<lambda>s (ident, p). handleUpdateProgress s ident p) systems ups"

text \<open>The rule of the data model: progress 100 goes with Compliant, progress 0 with NotStarted.\<close>

definition progress_rule :: "PharmaSystem \<Rightarrow> bool" where
  "progress_rule sys =
     ((num_eq (progress sys) (Num 100) \<longrightarrow> status sys = COMPLIANT) \<and>
      (num_eq (progress sys) (Num 0) \<longrightarrow> status sys = NOT_STARTED))"

section \<open>Array.prototype.sort with a comparator\<close>

text \<open>
  The sort is stable; for a comparator result \<open>v\<close>, the first argument goes after the
  second exactly when \<open>v > 0\<close> (a \<open>NaN\<close> result counts as \<open>0\<close>).  Stable insertion from
  the right gives the one order every conforming sort produces for a consistent comparator.
\<close>

fun num_sub :: "number \<Rightarrow> number \<Rightarrow> number" where
  "num_sub (Num a) (Num b) = Num (a - b)"
| "num_sub _ _ = NaN"

fun insert_cmp :: "('a \<Rightarrow> 'a \<Rightarrow> number) \<Rightarrow> 'a \<Rightarrow> 'a list \<Rightarrow> 'a list" where
  "insert_cmp cmp x [] = [x]"
| "insert_cmp cmp x (y # ys) =
     (if num_lt (Num 0) (cmp x y) then y # insert_cmp cmp x ys else x # y # ys)"

definition sort_cmp :: "('a \<Rightarrow> 'a \<Rightarrow> number) \<Rightarrow> 'a list \<Rightarrow> 'a list" where
  "sort_cmp cmp xs = foldr (insert_cmp cmp) xs []"

section \<open>The record store (storageService)\<close>

record InspectionRecord =
  insp_id :: string
  insp_systemId :: string
  insp_date :: string
  inspectorName :: string
  insp_notes :: string
  parameters :: "(string \<times> string) list"
  signature :: "string option"

text \<open>
  The two items of \<open>localStorage\<close> that hold inspections and spreadsheet reports; an
  item is absent (\<open>None\<close>) or holds the JSON text of a list, kept here as that list.
\<close>

record localStorage =
  ls_inspections :: "InspectionRecord list option"
  ls_excel_reports :: "ExcelAnalysisResult list option"

text \<open>
  \<open>new Date(s).getTime()\<close> is a parameter \<open>getTime\<close>: the milliseconds of the date the
  text denotes, or \<open>NaN\<close>.
\<close>

definition by_date_desc :: "(string \<Rightarrow> number) \<Rightarrow> InspectionRecord \<Rightarrow> InspectionRecord \<Rightarrow> number" where
  "by_date_desc getTime a b = num_sub (getTime (insp_date b)) (getTime (insp_date a))"

definition getInspections :: "(string \<Rightarrow> number) \<Rightarrow> localStorage \<Rightarrow> string \<Rightarrow> InspectionRecord list" where
  "getInspections getTime ls sid =
     (case ls_inspections ls of
        None \<Rightarrow> []
      | Some allRecords \<Rightarrow>
          sort_cmp (by_date_desc getTime) (filter (\<lambda>r. insp_systemId r = sid) allRecords))"

definition saveInspection :: "localStorage \<Rightarrow> InspectionRecord \<Rightarrow> localStorage" where
  "saveInspection ls record =
     ls\<lparr>ls_inspections :=
          Some ((case ls_inspections ls of None \<Rightarrow> [] | Some allRecords \<Rightarrow> allRecords) @ [record])\<rparr>"



section \<open>The Date object\<close>
























section \<open>Retention stamping (storageService.saveExcelReport)\<close>




section \<open>Notions of the specification\<close>

text \<open>
  A formula cell, in the words of the specification: a cell with an explicit formula
  marker (a non-empty \<open>f\<close>), or one whose stored value is text beginning with \<open>=\<close>.
\<close>

definition has_formula_marker :: "ws_cell \<Rightarrow> bool" where
  "has_formula_marker cell = truthy (cell_f cell)"

definition formula_like_text :: "ws_cell \<Rightarrow> bool" where
  "formula_like_text cell = (case cell_v cell of Str s \<Rightarrow> startsWith s ''='' | _ \<Rightarrow> False)"

definition is_formula_cell :: "ws_cell \<Rightarrow> bool" where
  "is_formula_cell cell = (has_formula_marker cell \<or> formula_like_text cell)"

text \<open>The positions (row, column) of a range in row-major order.\<close>

definition row_major :: "range \<Rightarrow> (nat \<times> nat) list" where
  "row_major rng =
     concat (map (\<lambda>R. map (\<lambda>C. (R, C)) [s_c rng..<Suc (e_c rng)]) [s_r rng..<Suc (e_r rng)])"

definition cell_at :: "worksheet \<Rightarrow> string \<Rightarrow> ws_cell option" where
  "cell_at ws a = (case ws_entries ws a of Some (Cell c) \<Rightarrow> Some c | _ \<Rightarrow> None)"

text \<open>
  An address names an entry of the sheet object when the lookup \<open>ws[address]\<close> yields
  something truthy.
\<close>

definition names_entry :: "(string \<rightharpoonup> ws_entry) \<Rightarrow> string \<Rightarrow> bool" where
  "names_entry m a = (case m a of None \<Rightarrow> False | Some e \<Rightarrow> entry_truthy e)"

definition formula_cell_at :: "worksheet \<Rightarrow> nat \<times> nat \<Rightarrow> bool" where
  "formula_cell_at ws pos =
     (case cell_at ws (encode_cell (snd pos) (fst pos)) of
        None \<Rightarrow> False
      | Some cell \<Rightarrow> is_formula_cell cell)"

text \<open>The positions of the formula cells of a sheet, in row-major order.\<close>

definition formula_positions :: "worksheet \<Rightarrow> (nat \<times> nat) list" where
  "formula_positions ws = filter (formula_cell_at ws) (row_major (sheet_range ws))"

text \<open>The (address, formula, value) triple of the formula cell at a position.\<close>

definition triple_at :: "worksheet \<Rightarrow> nat \<times> nat \<Rightarrow> SpreadsheetCell" where
  "triple_at ws pos =
     (let a = encode_cell (snd pos) (fst pos); cell = the (cell_at ws a) in
      \<lparr>address = a,
       formula = (if has_formula_marker cell then ''='' @ the (cell_f cell)
                  else (case cell_v cell of Str s \<Rightarrow> s | _ \<Rightarrow> [])),
       cell_value = cell_v cell\<rparr>)"

text \<open>The stored lists of the two items.\<close>

definition stored_inspections :: "localStorage \<Rightarrow> InspectionRecord list" where
  "stored_inspections ls = (case ls_inspections ls of None \<Rightarrow> [] | Some rs \<Rightarrow> rs)"


text \<open>Record \<open>a\<close> is dated no earlier than record \<open>b\<close> (both dates being valid).\<close>

definition not_older :: "(string \<Rightarrow> number) \<Rightarrow> InspectionRecord \<Rightarrow> InspectionRecord \<Rightarrow> bool" where
  "not_older getTime a b =
     (case (getTime (insp_date a), getTime (insp_date b)) of
        (Num x, Num y) \<Rightarrow> y \<le> x
      | _ \<Rightarrow> False)"





section \<open>Example inputs\<close>

text \<open>What every object inherits, and a sheet object with a range text and cells.\<close>

definition inherited :: "string \<rightharpoonup> ws_entry" where
  "inherited =
     [''constructor'' \<mapsto> Obj, ''__proto__'' \<mapsto> Obj, ''hasOwnProperty'' \<mapsto> Obj,
      ''isPrototypeOf'' \<mapsto> Obj, ''propertyIsEnumerable'' \<mapsto> Obj,
      ''toLocaleString'' \<mapsto> Obj, ''toString'' \<mapsto> Obj, ''valueOf'' \<mapsto> Obj]"

definition sheet_object :: "string \<Rightarrow> (string \<times> ws_cell) list \<Rightarrow> (string \<rightharpoonup> ws_entry)" where
  "sheet_object ref_text cs =
     (\<lambda>k. case map_of cs k of
             Some c \<Rightarrow> Some (Cell c)
           | None \<Rightarrow> if k = ''!ref'' then Some (Prim (Str ref_text)) else inherited k)"


text \<open>A sheet of 26 rows and 2 columns in which every cell holds a formula.\<close>

definition wide_sheet :: worksheet where
  "wide_sheet =
     \<lparr>ws_ref = Some \<lparr>s_r = 0, s_c = 0, e_r = 25, e_c = 1\<rparr>,
      ws_entries = sheet_object ''A1:B26''
        (map (\<lambda>pos. (encode_cell (snd pos) (fst pos),
                     \<lparr>cell_f = Some ''1+1'', cell_v = Number (Num 2), cell_c = None\<rparr>))
             (row_major \<lparr>s_r = 0, s_c = 0, e_r = 25, e_c = 1\<rparr>))\<rparr>"

text \<open>A sheet with literals only.\<close>

definition plain_sheet :: worksheet where
  "plain_sheet =
     \<lparr>ws_ref = Some \<lparr>s_r = 0, s_c = 0, e_r = 0, e_c = 1\<rparr>,
      ws_entries = sheet_object ''A1:B1''
        [(''A1'', \<lparr>cell_f = None, cell_v = Number (Num 5), cell_c = None\<rparr>),
         (''B1'', \<lparr>cell_f = None, cell_v = Str ''total'', cell_c = None\<rparr>)]\<rparr>"

text \<open>A cell list in which no entry carries a formula text.\<close>

definition literal_cells :: "SpreadsheetCell list" where
  "literal_cells = [\<lparr>address = ''A1'', formula = [], cell_value = Number (Num 5)\<rparr>]"

text \<open>
  A sheet with a formula in B2, and two discrepancies for it: one suggests a formula
  that contains a comparison, written without a leading \<open>=\<close>; the other suggests a value.
\<close>

definition ratio_sheet :: worksheet where
  "ratio_sheet =
     \<lparr>ws_ref = Some \<lparr>s_r = 0, s_c = 0, e_r = 1, e_c = 1\<rparr>,
      ws_entries = sheet_object ''A1:B2''
        [(''A1'', \<lparr>cell_f = None, cell_v = Number (Num 0), cell_c = None\<rparr>),
         (''A2'', \<lparr>cell_f = None, cell_v = Number (Num 8), cell_c = None\<rparr>),
         (''B2'', \<lparr>cell_f = Some ''A2/A1'', cell_v = Str ''#DIV/0!'', cell_c = None\<rparr>)]\<rparr>"

definition guard_suggestion :: Discrepancy where
  "guard_suggestion =
     \<lparr>address = ''B2'', formula = ''=A2/A1'', cell_value = Str ''#DIV/0!'',
      reason = ''Division by zero'', severity = High,
      suggestedFormula = Some ''IF(A1=0,0,A2/A1)'', suggestedValue = None\<rparr>"

definition value_suggestion :: Discrepancy where
  "value_suggestion =
     \<lparr>address = ''B2'', formula = ''=A2/A1'', cell_value = Str ''#DIV/0!'',
      reason = ''Hardcoded value'', severity = Medium,
      suggestedFormula = None, suggestedValue = Some ''42''\<rparr>"

definition stray_suggestion :: Discrepancy where
  "stray_suggestion =
     \<lparr>address = ''Z9'', formula = ''=A1'', cell_value = Number (Num 1),
      reason = ''Broken chain'', severity = Low,
      suggestedFormula = Some ''=A2'', suggestedValue = None\<rparr>"

text \<open>A discrepancy that names the sheet's range entry instead of a cell.\<close>

definition range_suggestion :: Discrepancy where
  "range_suggestion =
     \<lparr>address = ''!ref'', formula = ''=A1'', cell_value = Number (Num 1),
      reason = ''Range too small'', severity = Low,
      suggestedFormula = None, suggestedValue = Some ''A1:B3''\<rparr>"

text \<open>The analysis result of \<open>ratio.xlsx\<close> with that discrepancy alone.\<close>

definition range_result :: ExcelAnalysisResult where
  "range_result =
     \<lparr>report_id = None, systemId = None, date = None, fileName = ''ratio.xlsx'',
      retentionDate = None, totalFormulas = 1, discrepancies = [range_suggestion],
      isValid = False, summary = ''One issue found.'', referencedSopTitle = None\<rparr>"

text \<open>The initial asset list of App.tsx.\<close>

definition INITIAL_SYSTEMS :: "PharmaSystem list" where
  "INITIAL_SYSTEMS =
     [\<lparr>sys_id = ''1'', sys_name = ''WFI-Generator-01'', sys_type = WATER_SYSTEM,
       location = ''Utility Block A'', riskLevel = RiskHigh, currentStage = OQ,
       status = IN_PROGRESS, progress = Num 65, lastValidationDate = ''2023-10-15'',
       deviationsCount = Num 1\<rparr>,
      \<lparr>sys_id = ''2'', sys_name = ''HPLC-Agilent-1260'', sys_type = LAB_EQUIPMENT,
       location = ''QC Lab Main'', riskLevel = RiskMedium, currentStage = PQ,
       status = COMPLIANT, progress = Num 100, lastValidationDate = ''2024-01-20'',
       deviationsCount = Num 0\<rparr>,
      \<lparr>sys_id = ''3'', sys_name = ''AHU-Cleanroom-C'', sys_type = HVAC,
       location = ''Production Line 2'', riskLevel = RiskHigh, currentStage = IQ,
       status = DEVIATION, progress = Num 30, lastValidationDate = ''Pending'',
       deviationsCount = Num 3\<rparr>,
      \<lparr>sys_id = ''4'', sys_name = ''Cold-Storage-Mon-04'', sys_type = MONITORING,
       location = ''Warehouse B'', riskLevel = RiskMedium, currentStage = OQ,
       status = IN_PROGRESS, progress = Num 45, lastValidationDate = ''Pending'',
       deviationsCount = Num 0\<rparr>,
      \<lparr>sys_id = ''5'', sys_name = ''LIMS-Software-v2'', sys_type = SOFTWARE,
       location = ''Server Room 1'', riskLevel = RiskHigh, currentStage = VSR,
       status = COMPLIANT, progress = Num 95, lastValidationDate = ''2023-12-05'',
       deviationsCount = Num 0\<rparr>]"

text \<open>Two inspections of asset 1, stored oldest first, and one of asset 2.\<close>

definition insp_jan :: InspectionRecord where
  "insp_jan =
     \<lparr>insp_id = ''1704880000000'', insp_systemId = ''1'', insp_date = ''2024-01-10'',
      inspectorName = ''A. Rahimi'', insp_notes = ''ok'', parameters = [], signature = None\<rparr>"

definition insp_mar :: InspectionRecord where
  "insp_mar =
     \<lparr>insp_id = ''1709630000000'', insp_systemId = ''1'', insp_date = ''2024-03-05'',
      inspectorName = ''A. Rahimi'', insp_notes = ''filter changed'', parameters = [],
      signature = None\<rparr>"

definition insp_other :: InspectionRecord where
  "insp_other =
     \<lparr>insp_id = ''1709640000000'', insp_systemId = ''2'', insp_date = ''2024-03-05'',
      inspectorName = ''B. Karimi'', insp_notes = [], parameters = [], signature = None\<rparr>"

definition sample_store :: localStorage where
  "sample_store =
     \<lparr>ls_inspections = Some [insp_jan, insp_other], ls_excel_reports = None\<rparr>"

text \<open>The time values of the two dates used above.\<close>

definition sample_getTime :: "string \<Rightarrow> number" where
  "sample_getTime s =
     (if s = ''2024-01-10'' then Num 1704844800000
      else if s = ''2024-03-05'' then Num 1709596800000
      else NaN)"





section \<open>Extraction and the cap of 50 cells\<close>

lemma cell_formula_nonempty: "(cell_formula (Cell c) \<noteq> []) = is_formula_cell c"
  by (cases "cell_v c")
     (auto simp: cell_formula_def entry_f_def entry_v_def is_formula_cell_def
        has_formula_marker_def formula_like_text_def split: jsval.splits list.splits)

lemma cell_formula_text:
  "is_formula_cell c \<Longrightarrow>
   cell_formula (Cell c) = (if has_formula_marker c then ''='' @ the (cell_f c)
                           else (case cell_v c of Str s \<Rightarrow> s | _ \<Rightarrow> []))"
  by (auto simp: cell_formula_def entry_f_def entry_v_def is_formula_cell_def
        has_formula_marker_def formula_like_text_def split: jsval.splits)

lemma cell_formula_non_cell: "cell_formula (Prim v) = [] \<and> cell_formula Obj = []"
  by (simp add: cell_formula_def entry_f_def entry_v_def truthy_def)

lemma scan_cell_eq:
  "scan_cell ws R C = (if formula_cell_at ws (R, C) then [triple_at ws (R, C)] else [])"
proof (cases "ws_entries ws (encode_cell C R)")
  case None
  then show ?thesis by (simp add: scan_cell_def formula_cell_at_def cell_at_def)
next
  case (Some e)
  show ?thesis
  proof (cases e)
    case (Cell c)
    show ?thesis
    proof (cases "is_formula_cell c")
      case True
      with Some Cell show ?thesis
        using cell_formula_nonempty [of c] cell_formula_text [of c]
        by (simp add: scan_cell_def formula_cell_at_def cell_at_def triple_at_def Let_def
              entry_truthy_def entry_v_def)
    next
      case False
      with Some Cell show ?thesis
        using cell_formula_nonempty [of c]
        by (simp add: scan_cell_def formula_cell_at_def cell_at_def Let_def entry_truthy_def)
    qed
  next
    case (Prim v)
    with Some show ?thesis
      by (simp add: scan_cell_def formula_cell_at_def cell_at_def Let_def cell_formula_non_cell)
  next
    case Obj
    with Some show ?thesis
      by (simp add: scan_cell_def formula_cell_at_def cell_at_def Let_def cell_formula_non_cell)
  qed
qed

lemma concat_map_singletons:
  "concat (map (\<lambda>x. if P x then [g x] else []) xs) = map g (filter P xs)"
  by (induction xs) auto

lemma scan_row:
  "concat (map (\<lambda>C. scan_cell ws R C) cols) =
   map (triple_at ws) (filter (formula_cell_at ws) (map (\<lambda>C. (R, C)) cols))"
  by (induction cols) (auto simp: scan_cell_eq)

lemma scan_rows:
  "concat (map (\<lambda>R. concat (map (\<lambda>C. scan_cell ws R C) cols)) rows) =
   map (triple_at ws) (filter (formula_cell_at ws) (concat (map (\<lambda>R. map (\<lambda>C. (R, C)) cols) rows)))"
  by (induction rows) (auto simp: scan_row)

lemma extract_cells_eq: "extract_cells ws = map (triple_at ws) (formula_positions ws)"
  by (simp add: extract_cells_def formula_positions_def row_major_def Let_def scan_rows)

lemma triple_formula_nonempty:
  "formula_cell_at ws pos \<Longrightarrow> formula (triple_at ws pos) \<noteq> []"
  by (auto simp: formula_cell_at_def triple_at_def Let_def is_formula_cell_def
       has_formula_marker_def formula_like_text_def split: option.splits jsval.splits list.splits)

lemma formulaCells_extract: "formulaCells (extract_cells ws) = take 50 (extract_cells ws)"
proof -
  have "\<forall>c \<in> set (extract_cells ws). formula c \<noteq> []"
    by (auto simp: extract_cells_eq formula_positions_def triple_formula_nonempty)
  then have "filter (\<lambda>c. formula c \<noteq> []) (extract_cells ws) = extract_cells ws"
    by (simp add: filter_id_conv)
  then show ?thesis by (simp add: formulaCells_def)
qed

lemma validate_sent:
  "snd (validateSpreadsheet (Client gen) fname cells sop) =
     (if formulaCells cells = [] then []
      else [\<lparr>prompt_sopContext = sop, prompt_cells = formulaCells cells\<rparr>])"
  by (auto simp: validateSpreadsheet_def validate_try_def Let_def split: sum.splits prod.splits)

lemma validate_client_throws:
  "validateSpreadsheet ClientThrows fname cells sop = (failure_result fname, [])"
  by (simp add: validateSpreadsheet_def validate_try_def)

lemma validate_sent_any:
  "p \<in> set (snd (validateSpreadsheet newClient fname cells sop)) \<Longrightarrow>
   prompt_cells p = formulaCells cells"
  by (cases newClient) (auto simp: validate_client_throws validate_sent split: if_splits)

lemma formulaCells_positions:
  "formulaCells (extract_cells ws) = map (triple_at ws) (take 50 (formula_positions ws))"
proof -
  have "formulaCells (extract_cells ws) = take 50 (map (triple_at ws) (formula_positions ws))"
    using formulaCells_extract [of ws] extract_cells_eq [of ws] by simp
  then show ?thesis by (simp add: take_map)
qed

text \<open>
  Claim C1.  The extraction step yields the (address, formula, value) triples of exactly
  the formula cells of the sheet's range (cells with a non-empty formula marker, or with
  a text value beginning with \<open>=\<close>), in row-major order, and nothing for any other cell.
  When more than 50 such cells exist and the client object has been constructed, the
  one request sent to the analyzer carries exactly 50 triples: those of the first 50
  formula cells in row-major order.  Whatever the client, a request that is sent carries
  the first 50 formula cells.
\<close>

theorem extraction_and_cap:
  "extract_cells ws = map (triple_at ws) (formula_positions ws) \<and>
   (50 < length (formula_positions ws) \<longrightarrow>
      snd (validateSpreadsheet (Client gen) fname (extract_cells ws) sop) =
        [\<lparr>prompt_sopContext = sop,
          prompt_cells = map (triple_at ws) (take 50 (formula_positions ws))\<rparr>] \<and>
      length (take 50 (formula_positions ws)) = 50) \<and>
   (\<forall>p \<in> set (snd (validateSpreadsheet newClient fname (extract_cells ws) sop)).
      prompt_cells p = map (triple_at ws) (take 50 (formula_positions ws)))"
proof (intro conjI impI ballI)
  show "extract_cells ws = map (triple_at ws) (formula_positions ws)"
    by (rule extract_cells_eq)
next
  assume big: "50 < length (formula_positions ws)"
  then have "formula_positions ws \<noteq> []" by auto
  then have "formulaCells (extract_cells ws) \<noteq> []"
    by (simp add: formulaCells_positions)
  then show "snd (validateSpreadsheet (Client gen) fname (extract_cells ws) sop) =
        [\<lparr>prompt_sopContext = sop,
          prompt_cells = map (triple_at ws) (take 50 (formula_positions ws))\<rparr>]"
    by (simp add: validate_sent formulaCells_positions)
  show "length (take 50 (formula_positions ws)) = 50"
    using big by simp
next
  fix p
  assume "p \<in> set (snd (validateSpreadsheet newClient fname (extract_cells ws) sop))"
  then have "prompt_cells p = formulaCells (extract_cells ws)"
    by (rule validate_sent_any)
  then show "prompt_cells p = map (triple_at ws) (take 50 (formula_positions ws))"
    by (simp only: formulaCells_positions)
qed

theorem extraction_and_cap_witness:
  "50 < length (formula_positions wide_sheet) \<and>
   (\<exists>p. snd (validateSpreadsheet (Client (\<lambda>p. NoText)) ''wide.xlsx''
               (extract_cells wide_sheet) None) = [p] \<and>
        length (prompt_cells p) = 50 \<and>
        address (hd (prompt_cells p)) = ''A1'' \<and>
        address (last (prompt_cells p)) = ''B25'')"
proof -
  let ?sent = "map (triple_at wide_sheet) (take 50 (formula_positions wide_sheet))"
  have n: "50 < length (formula_positions wide_sheet)"
    by code_simp
  have first: "address (hd ?sent) = ''A1''"
    by code_simp
  have final: "address (last ?sent) = ''B25''"
    by code_simp
  from n extraction_and_cap [of wide_sheet "\<lambda>p. NoText" "''wide.xlsx''" None]
  have "snd (validateSpreadsheet (Client (\<lambda>p. NoText)) ''wide.xlsx''
          (extract_cells wide_sheet) None) =
        [\<lparr>prompt_sopContext = None, prompt_cells = ?sent\<rparr>]"
   and "length (take 50 (formula_positions wide_sheet)) = 50"
    by blast+
  with n first final show ?thesis by simp
qed

text \<open>
  The claim as stated fails: \<open>validateSpreadsheet\<close> constructs the client object inside
  its \<open>try\<close> block before it looks at the cells.  When that constructor throws (no API
  key is configured), a sheet with 52 formula cells sends no cell at all.
\<close>

theorem no_client_nothing_sent_counterexample:
  "50 < length (formula_positions wide_sheet) \<and>
   snd (validateSpreadsheet ClientThrows ''wide.xlsx'' (extract_cells wide_sheet) None) = []"
proof -
  have "50 < length (formula_positions wide_sheet)"
    by code_simp
  then show ?thesis by (simp add: validate_client_throws)
qed

section \<open>The short-circuit, the fallback and the validity flag\<close>

lemma validate_no_formulas:
  "formulaCells cells = [] \<Longrightarrow>
   validateSpreadsheet (Client gen) fname cells sop = (no_formulas_result fname, [])"
  by (simp add: validateSpreadsheet_def validate_try_def)

lemma no_formula_positions_extract:
  "formula_positions ws = [] \<Longrightarrow> formulaCells (extract_cells ws) = []"
  by (simp add: formulaCells_positions)

lemma formulaCells_literals:
  "\<forall>c \<in> set cells. formula c = [] \<Longrightarrow> formulaCells cells = []"
  by (simp add: formulaCells_def)

lemma validate_nothing_sent:
  "formulaCells cells = [] \<Longrightarrow> snd (validateSpreadsheet newClient fname cells sop) = []"
  by (cases newClient) (simp_all add: validate_client_throws validate_sent)

text \<open>
  Claim C2.  When the uploaded sheet has no formula cell (and likewise whenever the
  cell list handed over has no entry with a formula) and the client object has been
  constructed, \<open>validateSpreadsheet\<close> returns the trivially valid result (no formulas
  counted, no discrepancies, valid) and sends no request to the analyzer, whatever the
  analyzer would have answered.  No request is sent whatever the client.
\<close>

theorem zero_formulas_short_circuit:
  "(formula_positions ws = [] \<longrightarrow>
      validateSpreadsheet (Client gen) fname (extract_cells ws) sop =
        (no_formulas_result fname, [])) \<and>
   ((\<forall>c \<in> set cells. formula c = []) \<longrightarrow>
      validateSpreadsheet (Client gen) fname cells sop = (no_formulas_result fname, [])) \<and>
   (formula_positions ws = [] \<longrightarrow>
      snd (validateSpreadsheet newClient fname (extract_cells ws) sop) = []) \<and>
   totalFormulas (no_formulas_result fname) = 0 \<and>
   discrepancies (no_formulas_result fname) = [] \<and>
   isValid (no_formulas_result fname)"
  by (simp add: validate_no_formulas no_formula_positions_extract formulaCells_literals
        validate_nothing_sent no_formulas_result_def)

theorem zero_formulas_short_circuit_witness:
  "formula_positions plain_sheet = [] \<and>
   validateSpreadsheet (Client (\<lambda>p. CallThrows)) ''plain.xlsx'' (extract_cells plain_sheet) None =
     (no_formulas_result ''plain.xlsx'', []) \<and>
   map formula literal_cells = [[]] \<and>
   validateSpreadsheet (Client (\<lambda>p. CallThrows)) ''plain.xlsx'' literal_cells None =
     (no_formulas_result ''plain.xlsx'', []) \<and>
   snd (validateSpreadsheet ClientThrows ''plain.xlsx'' (extract_cells plain_sheet) None) = []"
proof -
  have "formula_positions plain_sheet = []"
    by code_simp
  moreover have "map formula literal_cells = [[]]"
    by (simp add: literal_cells_def)
  moreover have "\<forall>c \<in> set literal_cells. formula c = []"
    by (simp add: literal_cells_def)
  ultimately show ?thesis
    using zero_formulas_short_circuit [of plain_sheet "\<lambda>p. CallThrows" "''plain.xlsx''" None
        literal_cells ClientThrows]
    by simp
qed

text \<open>
  The claim as stated fails: the client object is constructed before the short-circuit.
  When the constructor throws, a sheet without any formula cell gets the failure result,
  which is not valid and has one discrepancy.
\<close>

theorem no_client_no_short_circuit_counterexample:
  "formula_positions plain_sheet = [] \<and>
   fst (validateSpreadsheet ClientThrows ''plain.xlsx'' (extract_cells plain_sheet) None) =
     failure_result ''plain.xlsx'' \<and>
   \<not> isValid (failure_result ''plain.xlsx'') \<and>
   discrepancies (failure_result ''plain.xlsx'') = [failure_discrepancy]"
proof -
  have "formula_positions plain_sheet = []"
    by code_simp
  then show ?thesis by (simp add: validate_client_throws failure_result_def)
qed




text \<open>
  Claim C9.  On every path of \<open>validateSpreadsheet\<close> (short-circuit, answered call,
  fallback, also the fallback after a failed construction of the client) the validity
  flag of the result is true exactly when its discrepancy list is empty.
\<close>

theorem valid_iff_no_discrepancies:
  "isValid (fst (validateSpreadsheet newClient fname cells sop)) =
   (discrepancies (fst (validateSpreadsheet newClient fname cells sop)) = [])"
  by (cases newClient)
     (auto simp: validateSpreadsheet_def validate_try_def Let_def parse_reply_def
        analysis_result_def no_formulas_result_def failure_result_def
        split: prod.splits sum.splits reply.splits json.splits option.splits)

section \<open>Corrected-file regeneration\<close>

lemma apply_correction_skip:
  "\<not> names_entry m (address disc) \<Longrightarrow> apply_correction m disc = Inr m"
  by (auto simp: apply_correction_def names_entry_def entry_truthy_def
        split: option.splits ws_entry.splits)

lemma apply_correction_failure: "apply_correction m failure_discrepancy = Inr m"
  by (simp add: apply_correction_def failure_discrepancy_def truthy_def)

lemma apply_correction_no_suggestion:
  "\<not> truthy (suggestedFormula disc) \<Longrightarrow> \<not> truthy (suggestedValue disc) \<Longrightarrow>
   apply_correction m disc = Inr m"
  by (simp add: apply_correction_def)

lemma apply_correction_other:
  "apply_correction m disc = Inr m' \<Longrightarrow> a \<noteq> address disc \<Longrightarrow> m' a = m a"
  by (auto simp: apply_correction_def split: option.splits ws_entry.splits if_splits)

lemma apply_correction_names:
  "apply_correction m disc = Inr m' \<Longrightarrow> names_entry m' a = names_entry m a"
  by (auto simp: apply_correction_def names_entry_def entry_truthy_def
        split: option.splits ws_entry.splits if_splits)

lemma apply_correction_dom:
  "apply_correction m disc = Inr m' \<Longrightarrow> dom m' = dom m"
  by (auto simp: apply_correction_def split: option.splits ws_entry.splits if_splits)

lemma apply_correction_non_cell:
  "apply_correction m disc = Inr m' \<Longrightarrow> \<nexists>c. m a = Some (Cell c) \<Longrightarrow> m' a = m a"
  by (auto simp: apply_correction_def split: option.splits ws_entry.splits if_splits)

lemma apply_all_dom:
  "apply_all m discs = Inr m' \<Longrightarrow> dom m' = dom m"
proof (induction discs arbitrary: m)
  case Nil
  then show ?case by simp
next
  case (Cons d discs)
  then obtain m1 where one: "apply_correction m d = Inr m1" and rest: "apply_all m1 discs = Inr m'"
    by (auto split: sum.splits)
  from Cons.IH [OF rest] apply_correction_dom [OF one] show ?case by simp
qed

lemma apply_all_non_cell:
  "apply_all m discs = Inr m' \<Longrightarrow> \<nexists>c. m a = Some (Cell c) \<Longrightarrow> m' a = m a"
proof (induction discs arbitrary: m)
  case Nil
  then show ?case by simp
next
  case (Cons d discs)
  then obtain m1 where one: "apply_correction m d = Inr m1" and rest: "apply_all m1 discs = Inr m'"
    by (auto split: sum.splits)
  from apply_correction_non_cell [OF one Cons.prems(2)] have same: "m1 a = m a" .
  with Cons.prems(2) have "\<nexists>c. m1 a = Some (Cell c)" by simp
  from Cons.IH [OF rest this] same show ?case by simp
qed

lemma apply_all_skip_names:
  "\<forall>a. names_entry m a = N a \<Longrightarrow>
   apply_all m (filter (\<lambda>d. N (address d)) discs) = apply_all m discs"
proof (induction discs arbitrary: m)
  case Nil
  then show ?case by simp
next
  case (Cons d discs)
  show ?case
  proof (cases "N (address d)")
    case True
    show ?thesis
    proof (cases "apply_correction m d")
      case (Inl e)
      with True show ?thesis by simp
    next
      case (Inr m1)
      with Cons.prems have "\<forall>a. names_entry m1 a = N a"
        by (simp add: apply_correction_names)
      from Cons.IH [OF this] True Inr show ?thesis by simp
    qed
  next
    case False
    with Cons.prems have "apply_correction m d = Inr m"
      by (simp add: apply_correction_skip)
    with Cons.IH [OF Cons.prems] False show ?thesis by simp
  qed
qed

lemma apply_all_skip:
  "apply_all m (filter (\<lambda>d. names_entry m (address d)) discs) = apply_all m discs"
  by (rule apply_all_skip_names) simp

lemma apply_all_untouched:
  "\<forall>d \<in> set discs. (truthy (suggestedFormula d) \<or> truthy (suggestedValue d)) \<longrightarrow> address d \<noteq> a \<Longrightarrow>
   apply_all m discs = Inr m' \<Longrightarrow> m' a = m a"
proof (induction discs arbitrary: m)
  case Nil
  then show ?case by simp
next
  case (Cons d discs)
  from Cons.prems(2) obtain m1 where one: "apply_correction m d = Inr m1"
    and rest: "apply_all m1 discs = Inr m'"
    by (auto split: sum.splits)
  have "m1 a = m a"
  proof (cases "truthy (suggestedFormula d) \<or> truthy (suggestedValue d)")
    case True
    with Cons.prems(1) have "a \<noteq> address d" by auto
    with one show ?thesis by (rule apply_correction_other)
  next
    case False
    with one show ?thesis by (simp add: apply_correction_no_suggestion)
  qed
  moreover from Cons.prems(1) have "m' a = m1 a"
    by (intro Cons.IH [OF _ rest]) simp
  ultimately show ?case by simp
qed

lemma replace_eq_leading: "replace_eq (CHR ''='' # s) = s"
  by (simp add: replace_eq_def)

lemma replace_eq_absent: "CHR ''='' \<notin> set s \<Longrightarrow> replace_eq s = s"
  by (simp add: replace_eq_def remove1_idem)

text \<open>What one correction does to the cell it addresses, when that cell exists.\<close>

lemma apply_correction_formula:
  "m (address disc) = Some (Cell cell) \<Longrightarrow> truthy (suggestedFormula disc) \<Longrightarrow>
   apply_correction m disc =
     Inr (m(address disc \<mapsto> Cell
       \<lparr>cell_f = Some (replace_eq (the (suggestedFormula disc))), cell_v = Undefined,
        cell_c = Some ((case cell_c cell of None \<Rightarrow> [] | Some cs \<Rightarrow> cs)
                       @ [''MDPC Correction: '' @ reason disc])\<rparr>))"
  by (cases cell)
     (simp add: apply_correction_def write_suggestion_def push_comment_def correction_note_def)

lemma apply_correction_value:
  "m (address disc) = Some (Cell cell) \<Longrightarrow> \<not> truthy (suggestedFormula disc) \<Longrightarrow>
   truthy (suggestedValue disc) \<Longrightarrow>
   apply_correction m disc =
     Inr (m(address disc \<mapsto> Cell
       \<lparr>cell_f = None, cell_v = Str (the (suggestedValue disc)),
        cell_c = Some ((case cell_c cell of None \<Rightarrow> [] | Some cs \<Rightarrow> cs)
                       @ [''MDPC Correction: '' @ reason disc])\<rparr>))"
  by (cases cell)
     (simp add: apply_correction_def write_suggestion_def push_comment_def correction_note_def)

text \<open>
  Three entries of the example sheet.
\<close>

lemma ratio_sheet_B2:
  "ws_entries ratio_sheet ''B2'' =
     Some (Cell \<lparr>cell_f = Some ''A2/A1'', cell_v = Str ''#DIV/0!'', cell_c = None\<rparr>)"
  by (simp add: ratio_sheet_def sheet_object_def)

lemma ratio_sheet_Z9: "ws_entries ratio_sheet ''Z9'' = None"
  by (simp add: ratio_sheet_def sheet_object_def inherited_def)

lemma ratio_sheet_ref: "ws_entries ratio_sheet ''!ref'' = Some (Prim (Str ''A1:B2''))"
  by (simp add: ratio_sheet_def sheet_object_def)

text \<open>
  Claim C3.  The claim says that a suggested formula replaces the cell's formula.  The
  code stores the suggestion with its first \<open>=\<close> deleted, wherever that character
  stands: for the suggestion \<open>IF(A1=0,0,A2/A1)\<close> at B2 the regenerated sheet is the
  original with B2 holding the formula \<open>IF(A10,0,A2/A1)\<close>, which compares nothing and
  refers to cell A10.
\<close>

theorem suggested_formula_loses_inner_equals:
  "suggestedFormula guard_suggestion = Some ''IF(A1=0,0,A2/A1)'' \<and>
   apply_corrections ratio_sheet [guard_suggestion] =
     Inr (ratio_sheet\<lparr>ws_entries := (ws_entries ratio_sheet)(''B2'' \<mapsto> Cell
            \<lparr>cell_f = Some ''IF(A10,0,A2/A1)'', cell_v = Undefined,
             cell_c = Some [''MDPC Correction: Division by zero'']\<rparr>)\<rparr>)"
proof -
  have a: "address guard_suggestion = ''B2''"
    and f: "suggestedFormula guard_suggestion = Some ''IF(A1=0,0,A2/A1)''"
    and r: "reason guard_suggestion = ''Division by zero''"
    by (simp_all add: guard_suggestion_def)
  have t: "truthy (suggestedFormula guard_suggestion)"
    by (simp add: f truthy_def)
  have "ws_entries ratio_sheet (address guard_suggestion) =
      Some (Cell \<lparr>cell_f = Some ''A2/A1'', cell_v = Str ''#DIV/0!'', cell_c = None\<rparr>)"
    by (simp only: a ratio_sheet_B2)
  from apply_correction_formula [of "ws_entries ratio_sheet" guard_suggestion, OF this t]
  have "apply_correction (ws_entries ratio_sheet) guard_suggestion =
     Inr ((ws_entries ratio_sheet)(''B2'' \<mapsto> Cell
            \<lparr>cell_f = Some ''IF(A10,0,A2/A1)'', cell_v = Undefined,
             cell_c = Some [''MDPC Correction: Division by zero'']\<rparr>))"
    by (simp add: a f r replace_eq_def)
  then show ?thesis by (simp add: apply_corrections_def f)
qed

text \<open>
  Claim C10.  A discrepancy whose address names nothing in the sheet object (the lookup
  yields \<open>undefined\<close> or another falsy value) is skipped: alone it leaves the sheet
  as it is, and in a list the outcome is the one obtained from the remaining
  discrepancies alone, as long as no suggestion lands on an entry that is not a cell.
  When the regeneration completes, the sheet object has the keys of the original and
  every key that held no cell holds what it held.  The failure result's synthetic
  discrepancy changes nothing, and the file is written with the original sheet.
\<close>

theorem missing_address_skipped:
  "(\<not> names_entry (ws_entries ws) (address disc) \<longrightarrow>
      apply_corrections ws [disc] = Inr ws) \<and>
   (apply_corrections ws discs \<noteq> Inl NonCellWrite \<longrightarrow>
      apply_corrections ws discs =
        apply_corrections ws (filter (\<lambda>d. names_entry (ws_entries ws) (address d)) discs)) \<and>
   (\<forall>ws'. apply_corrections ws discs = Inr ws' \<longrightarrow>
      dom (ws_entries ws') = dom (ws_entries ws) \<and>
      (\<forall>a. cell_at ws a = None \<longrightarrow> ws_entries ws' a = ws_entries ws a)) \<and>
   apply_corrections ws (discrepancies (failure_result fname)) = Inr ws \<and>
   handleDownloadCorrectedExcel (Some ws) (Some (failure_result fname)) (Some file) =
     Written (''Corrected_'' @ file) ws"
proof (intro conjI impI allI)
  assume "\<not> names_entry (ws_entries ws) (address disc)"
  then show "apply_corrections ws [disc] = Inr ws"
    by (simp add: apply_corrections_def apply_correction_skip)
next
  show "apply_corrections ws discs =
        apply_corrections ws (filter (\<lambda>d. names_entry (ws_entries ws) (address d)) discs)"
    by (simp only: apply_corrections_def apply_all_skip)
next
  fix ws'
  assume "apply_corrections ws discs = Inr ws'"
  then obtain m' where all: "apply_all (ws_entries ws) discs = Inr m'"
    and ws': "ws' = ws\<lparr>ws_entries := m'\<rparr>"
    by (auto simp: apply_corrections_def split: sum.splits)
  from apply_all_dom [OF all] ws' show "dom (ws_entries ws') = dom (ws_entries ws)"
    by simp
  fix a
  assume "cell_at ws a = None"
  then have "\<nexists>c. ws_entries ws a = Some (Cell c)"
    by (auto simp: cell_at_def)
  from apply_all_non_cell [OF all this] ws' show "ws_entries ws' a = ws_entries ws a"
    by simp
next
  show unchanged: "apply_corrections ws (discrepancies (failure_result fname)) = Inr ws"
    by (simp add: apply_corrections_def failure_result_def apply_correction_failure)
  then show "handleDownloadCorrectedExcel (Some ws) (Some (failure_result fname)) (Some file) =
     Written (''Corrected_'' @ file) ws"
    by (simp add: handleDownloadCorrectedExcel_def)
qed

theorem missing_address_skipped_witness:
  "ws_entries ratio_sheet (address stray_suggestion) = None \<and>
   truthy (suggestedFormula stray_suggestion) \<and>
   apply_corrections ratio_sheet [stray_suggestion] = Inr ratio_sheet \<and>
   apply_corrections ratio_sheet [stray_suggestion, value_suggestion] \<noteq> Inl NonCellWrite \<and>
   apply_corrections ratio_sheet [stray_suggestion, value_suggestion] =
     apply_corrections ratio_sheet [value_suggestion] \<and>
   (\<exists>ws'. apply_corrections ratio_sheet [stray_suggestion, value_suggestion] = Inr ws' \<and>
          ws_entries ws' ''Z9'' = None \<and>
          ws_entries ws' ''!ref'' = Some (Prim (Str ''A1:B2'')))"
proof -
  let ?discs = "[stray_suggestion, value_suggestion]"
  have absent: "ws_entries ratio_sheet (address stray_suggestion) = None"
    by (simp add: stray_suggestion_def ratio_sheet_Z9)
  then have unnamed: "\<not> names_entry (ws_entries ratio_sheet) (address stray_suggestion)"
    by (simp add: names_entry_def)
  have named: "names_entry (ws_entries ratio_sheet) (address value_suggestion)"
    by (simp add: value_suggestion_def names_entry_def ratio_sheet_B2 entry_truthy_def)
  have carries: "truthy (suggestedFormula stray_suggestion)"
    by (simp add: stray_suggestion_def truthy_def)
  have kept: "filter (\<lambda>d. names_entry (ws_entries ratio_sheet) (address d)) ?discs =
      [value_suggestion]"
    using unnamed named by simp
  note skipped = missing_address_skipped [of ratio_sheet stray_suggestion ?discs]
  from skipped unnamed have alone: "apply_corrections ratio_sheet [stray_suggestion] = Inr ratio_sheet"
    by blast
  have "\<exists>ws'. apply_corrections ratio_sheet ?discs = Inr ws'"
    by (simp add: apply_corrections_def apply_correction_def stray_suggestion_def
          value_suggestion_def truthy_def ratio_sheet_B2 ratio_sheet_Z9)
  then obtain ws' where res: "apply_corrections ratio_sheet ?discs = Inr ws'"
    by auto
  then have described: "apply_corrections ratio_sheet ?discs \<noteq> Inl NonCellWrite"
    by simp
  from skipped described have "apply_corrections ratio_sheet ?discs =
      apply_corrections ratio_sheet
        (filter (\<lambda>d. names_entry (ws_entries ratio_sheet) (address d)) ?discs)"
    by blast
  then have same: "apply_corrections ratio_sheet ?discs =
      apply_corrections ratio_sheet [value_suggestion]"
    by (simp only: kept)
  have z9: "cell_at ratio_sheet ''Z9'' = None" and rf: "cell_at ratio_sheet ''!ref'' = None"
    by (simp_all add: cell_at_def ratio_sheet_Z9 ratio_sheet_ref)
  from skipped res z9 have "ws_entries ws' ''Z9'' = ws_entries ratio_sheet ''Z9''"
    by blast
  moreover from skipped res rf have "ws_entries ws' ''!ref'' = ws_entries ratio_sheet ''!ref''"
    by blast
  ultimately have "ws_entries ws' ''Z9'' = None \<and>
      ws_entries ws' ''!ref'' = Some (Prim (Str ''A1:B2''))"
    by (simp add: ratio_sheet_Z9 ratio_sheet_ref)
  with res absent carries alone described same show ?thesis by blast
qed

text \<open>
  The claim as stated fails for an address that has no cell but names another entry of
  the sheet object.  A discrepancy addressed to \<open>!ref\<close>, where the sheet keeps its
  range as text, passes the guard; the assignment to the text throws, the handler
  catches the exception, shows its message and writes no file.
\<close>

theorem range_entry_not_skipped_counterexample:
  "cell_at ratio_sheet (address range_suggestion) = None \<and>
   suggestedValue range_suggestion = Some ''A1:B3'' \<and>
   apply_corrections ratio_sheet (discrepancies range_result) = Inl (Thrown TypeError) \<and>
   handleDownloadCorrectedExcel (Some ratio_sheet) (Some range_result) (Some ''ratio.xlsx'') =
     Alerted"
proof -
  have a: "address range_suggestion = ''!ref''"
    and v: "suggestedValue range_suggestion = Some ''A1:B3''"
    by (simp_all add: range_suggestion_def)
  have "apply_correction (ws_entries ratio_sheet) range_suggestion = Inl (Thrown TypeError)"
    by (simp add: apply_correction_def a v truthy_def ratio_sheet_ref js_truthy_def)
  then have thrown: "apply_corrections ratio_sheet (discrepancies range_result) =
      Inl (Thrown TypeError)"
    by (simp add: apply_corrections_def range_result_def)
  then have "handleDownloadCorrectedExcel (Some ratio_sheet) (Some range_result)
      (Some ''ratio.xlsx'') = Alerted"
    by (simp add: handleDownloadCorrectedExcel_def)
  with thrown a v show ?thesis
    by (simp add: cell_at_def ratio_sheet_ref)
qed

section \<open>Progress and status\<close>

lemma new_status_100: "new_status old (Num 100) = COMPLIANT"
  by (simp add: new_status_def)

lemma new_status_0: "new_status old (Num 0) = NOT_STARTED"
  by (simp add: new_status_def)

lemma new_status_rule:
  "(num_eq p (Num 100) \<longrightarrow> new_status old p = COMPLIANT) \<and>
   (num_eq p (Num 0) \<longrightarrow> new_status old p = NOT_STARTED)"
  by (cases p) (simp_all add: new_status_def)

lemma progress_rule_update:
  "progress_rule (sys\<lparr>progress := p, status := new_status (status sys) p\<rparr>)"
  using new_status_rule [of p "status sys"] by (simp add: progress_rule_def)


lemma handleUpdateProgress_rule:
  assumes "\<forall>sys \<in> set systems. progress_rule sys"
  shows "\<forall>sys \<in> set (handleUpdateProgress systems ident p). progress_rule sys"
proof
  fix sys assume "sys \<in> set (handleUpdateProgress systems ident p)"
  then obtain old where old: "old \<in> set systems"
    and sys: "sys = (if sys_id old = ident
                 then old\<lparr>progress := p, status := new_status (status old) p\<rparr> else old)"
    unfolding handleUpdateProgress_def by auto
  show "progress_rule sys"
  proof (cases "sys_id old = ident")
    case True
    with sys have "sys = old\<lparr>progress := p, status := new_status (status old) p\<rparr>"
      by simp
    then show ?thesis by (simp only: progress_rule_update)
  next
    case False
    with sys old assms show ?thesis by simp
  qed
qed

lemma apply_updates_rule:
  "\<forall>sys \<in> set systems. progress_rule sys \<Longrightarrow>
   \<forall>sys \<in> set (apply_updates systems ups). progress_rule sys"
  unfolding apply_updates_def
proof (induction ups arbitrary: systems)
  case Nil
  then show ?case by simp
next
  case (Cons u ups)
  obtain ident p where u: "u = (ident, p)" by (cases u)
  from Cons.prems have "\<forall>sys \<in> set (handleUpdateProgress systems ident p). progress_rule sys"
    by (rule handleUpdateProgress_rule)
  from Cons.IH [OF this] u show ?case by simp
qed

lemma updated_asset:
  assumes "sys \<in> set (handleUpdateProgress systems ident p)" and "sys_id sys = ident"
  shows "progress sys = p \<and> (\<exists>old \<in> set systems. status sys = new_status (status old) p)"
proof -
  from assms(1) obtain old where old: "old \<in> set systems"
    and sys: "sys = (if sys_id old = ident
                 then old\<lparr>progress := p, status := new_status (status old) p\<rparr> else old)"
    unfolding handleUpdateProgress_def by auto
  from sys assms(2) have "sys = old\<lparr>progress := p, status := new_status (status old) p\<rparr>"
    by (simp split: if_splits)
  with old show ?thesis by auto
qed

text \<open>
  Claim C8.  After any sequence of progress updates, setting an asset's progress to 100
  gives it status Compliant and setting it to 0 gives it status NotStarted; every update
  leaves the updated asset in agreement with the rule (progress 100 goes with Compliant,
  progress 0 with NotStarted), and a list of assets that agrees with the rule still does
  after any sequence of updates.
\<close>

theorem progress_status_rule:
  "(\<forall>sys \<in> set (handleUpdateProgress (apply_updates systems ups) ident (Num 100)).
      sys_id sys = ident \<longrightarrow> progress sys = Num 100 \<and> status sys = COMPLIANT) \<and>
   (\<forall>sys \<in> set (handleUpdateProgress (apply_updates systems ups) ident (Num 0)).
      sys_id sys = ident \<longrightarrow> progress sys = Num 0 \<and> status sys = NOT_STARTED) \<and>
   (\<forall>sys \<in> set (handleUpdateProgress systems ident p).
      sys_id sys = ident \<longrightarrow> progress_rule sys) \<and>
   ((\<forall>sys \<in> set systems. progress_rule sys) \<longrightarrow>
      (\<forall>sys \<in> set (apply_updates systems ups). progress_rule sys))"
proof (intro conjI ballI impI)
  fix sys
  assume "sys \<in> set (handleUpdateProgress (apply_updates systems ups) ident (Num 100))"
    and "sys_id sys = ident"
  from updated_asset [OF this]
  show "progress sys = Num 100" and "status sys = COMPLIANT"
    by (auto simp: new_status_100)
next
  fix sys
  assume "sys \<in> set (handleUpdateProgress (apply_updates systems ups) ident (Num 0))"
    and "sys_id sys = ident"
  from updated_asset [OF this]
  show "progress sys = Num 0" and "status sys = NOT_STARTED"
    by (auto simp: new_status_0)
next
  fix sys
  assume "sys \<in> set (handleUpdateProgress systems ident p)" and "sys_id sys = ident"
  from updated_asset [OF this] new_status_rule [of p]
  show "progress_rule sys"
    by (auto simp: progress_rule_def)
next
  fix sys
  assume "\<forall>s \<in> set systems. progress_rule s" and "sys \<in> set (apply_updates systems ups)"
  with apply_updates_rule [of systems ups] show "progress_rule sys" by blast
qed

theorem progress_status_rule_witness:
  "list_all progress_rule INITIAL_SYSTEMS \<and>
   list_all progress_rule (apply_updates INITIAL_SYSTEMS [(''3'', Num 50), (''1'', Num 0)]) \<and>
   (\<exists>sys \<in> set (handleUpdateProgress
                  (apply_updates INITIAL_SYSTEMS [(''3'', Num 50), (''1'', Num 0)]) ''3'' (Num 100)).
      sys_id sys = ''3'' \<and> status sys = COMPLIANT) \<and>
   (\<exists>sys \<in> set (handleUpdateProgress
                  (apply_updates INITIAL_SYSTEMS [(''3'', Num 50), (''1'', Num 0)]) ''3'' (Num 0)).
      sys_id sys = ''3'' \<and> status sys = NOT_STARTED)"
proof -
  let ?ups = "[(''3'', Num 50), (''1'', Num 0)]"
  have init: "\<forall>sys \<in> set INITIAL_SYSTEMS. progress_rule sys"
    by (simp add: INITIAL_SYSTEMS_def progress_rule_def)
  have found: "\<exists>sys \<in> set (handleUpdateProgress (apply_updates INITIAL_SYSTEMS ?ups) ''3'' p).
      sys_id sys = ''3''" for p
    by (simp add: INITIAL_SYSTEMS_def apply_updates_def handleUpdateProgress_def)
  from found [of "Num 100"] found [of "Num 0"] init
    progress_status_rule [of INITIAL_SYSTEMS ?ups "''3''" "Num 0"]
  show ?thesis unfolding list_all_iff by blast
qed

section \<open>Inspection records\<close>

lemma mset_insert_cmp: "mset (insert_cmp cmp x ys) = add_mset x (mset ys)"
  by (induction ys) simp_all

lemma mset_sort_cmp: "mset (sort_cmp cmp xs) = mset xs"
  unfolding sort_cmp_def by (induction xs) (simp_all add: mset_insert_cmp)

lemma set_sort_cmp: "set (sort_cmp cmp xs) = set xs"
  using mset_sort_cmp [of cmp xs] by (metis set_mset_mset)

lemma set_insert_cmp: "set (insert_cmp cmp x ys) = insert x (set ys)"
  using mset_insert_cmp [of cmp x ys] by (metis set_mset_mset set_mset_add_mset_insert)

lemma not_older_trans:
  "not_older g a b \<Longrightarrow> not_older g b c \<Longrightarrow> not_older g a c"
  by (auto simp: not_older_def split: number.splits)

lemma by_date_desc_pos:
  "g (insp_date x) \<noteq> NaN \<Longrightarrow> g (insp_date y) \<noteq> NaN \<Longrightarrow>
   num_lt (Num 0) (by_date_desc g x y) \<Longrightarrow> not_older g y x"
  by (cases "g (insp_date x)"; cases "g (insp_date y)")
     (simp_all add: by_date_desc_def not_older_def)

lemma by_date_desc_nonpos:
  "g (insp_date x) \<noteq> NaN \<Longrightarrow> g (insp_date y) \<noteq> NaN \<Longrightarrow>
   \<not> num_lt (Num 0) (by_date_desc g x y) \<Longrightarrow> not_older g x y"
  by (cases "g (insp_date x)"; cases "g (insp_date y)")
     (simp_all add: by_date_desc_def not_older_def)

lemma sorted_insert_cmp:
  assumes "sorted_wrt (not_older g) ys"
      and "g (insp_date x) \<noteq> NaN"
      and "\<forall>y \<in> set ys. g (insp_date y) \<noteq> NaN"
  shows "sorted_wrt (not_older g) (insert_cmp (by_date_desc g) x ys)"
  using assms
proof (induction ys)
  case Nil
  then show ?case by simp
next
  case (Cons y ys)
  show ?case
  proof (cases "num_lt (Num 0) (by_date_desc g x y)")
    case True
    with Cons.prems have yx: "not_older g y x"
      by (simp add: by_date_desc_pos)
    from Cons have "sorted_wrt (not_older g) (insert_cmp (by_date_desc g) x ys)"
      by simp
    with True yx Cons.prems show ?thesis
      by (auto simp: set_insert_cmp)
  next
    case False
    with Cons.prems have xy: "not_older g x y"
      by (simp add: by_date_desc_nonpos)
    with Cons.prems have "\<forall>z \<in> set ys. not_older g x z"
      by (auto intro: not_older_trans)
    with False xy Cons.prems show ?thesis by simp
  qed
qed

lemma sorted_sort_cmp:
  "\<forall>x \<in> set xs. g (insp_date x) \<noteq> NaN \<Longrightarrow>
   sorted_wrt (not_older g) (sort_cmp (by_date_desc g) xs)"
proof (induction xs)
  case Nil
  then show ?case by (simp add: sort_cmp_def)
next
  case (Cons x xs)
  then have "sorted_wrt (not_older g) (sort_cmp (by_date_desc g) xs)" by simp
  moreover from Cons.prems have "\<forall>y \<in> set (sort_cmp (by_date_desc g) xs). g (insp_date y) \<noteq> NaN"
    by (simp add: set_sort_cmp)
  ultimately have "sorted_wrt (not_older g) (insert_cmp (by_date_desc g) x (sort_cmp (by_date_desc g) xs))"
    using Cons.prems by (intro sorted_insert_cmp) simp_all
  then show ?case by (simp add: sort_cmp_def)
qed

lemma getInspections_filter:
  "getInspections g ls sid =
   sort_cmp (by_date_desc g) (filter (\<lambda>r. insp_systemId r = sid) (stored_inspections ls))"
  by (simp add: getInspections_def stored_inspections_def sort_cmp_def split: option.splits)

lemma stored_after_save: "stored_inspections (saveInspection ls r) = stored_inspections ls @ [r]"
  by (simp add: saveInspection_def stored_inspections_def)

text \<open>
  Claim C6.  After \<open>saveInspection\<close> of a record, \<open>getInspections\<close> for its asset
  returns a list containing it.  The list returned for an asset holds exactly the stored
  records of that asset (each as often as it is stored), and when the stored dates are
  valid it is ordered by date, most recent first.
\<close>

theorem inspections_round_trip:
  "r \<in> set (getInspections g (saveInspection ls r) (insp_systemId r)) \<and>
   mset (getInspections g ls sid) =
     mset (filter (\<lambda>x. insp_systemId x = sid) (stored_inspections ls)) \<and>
   ((\<forall>x \<in> set (stored_inspections ls). g (insp_date x) \<noteq> NaN) \<longrightarrow>
      sorted_wrt (not_older g) (getInspections g ls sid))"
proof (intro conjI impI)
  show "r \<in> set (getInspections g (saveInspection ls r) (insp_systemId r))"
    by (simp add: getInspections_filter set_sort_cmp stored_after_save)
  show "mset (getInspections g ls sid) =
     mset (filter (\<lambda>x. insp_systemId x = sid) (stored_inspections ls))"
    by (simp only: getInspections_filter mset_sort_cmp)
  assume "\<forall>x \<in> set (stored_inspections ls). g (insp_date x) \<noteq> NaN"
  then have "\<forall>x \<in> set (filter (\<lambda>r. insp_systemId r = sid) (stored_inspections ls)).
      g (insp_date x) \<noteq> NaN"
    by simp
  then show "sorted_wrt (not_older g) (getInspections g ls sid)"
    unfolding getInspections_filter by (rule sorted_sort_cmp)
qed

theorem inspections_round_trip_witness:
  "map (\<lambda>x. sample_getTime (insp_date x))
     (stored_inspections (saveInspection sample_store insp_mar)) =
     [Num 1704844800000, Num 1709596800000, Num 1709596800000] \<and>
   sorted_wrt (not_older sample_getTime)
     (getInspections sample_getTime (saveInspection sample_store insp_mar) ''1'') \<and>
   getInspections sample_getTime (saveInspection sample_store insp_mar) ''1'' =
     [insp_mar, insp_jan]"
proof -
  have stored: "stored_inspections (saveInspection sample_store insp_mar) =
      [insp_jan, insp_other, insp_mar]"
    by (simp add: stored_after_save) (simp add: stored_inspections_def sample_store_def)
  have times: "map (\<lambda>x. sample_getTime (insp_date x))
     (stored_inspections (saveInspection sample_store insp_mar)) =
     [Num 1704844800000, Num 1709596800000, Num 1709596800000]"
    unfolding stored
    by (simp add: insp_jan_def insp_mar_def insp_other_def sample_getTime_def)
  have valid: "\<forall>x \<in> set (stored_inspections (saveInspection sample_store insp_mar)).
      sample_getTime (insp_date x) \<noteq> NaN"
    unfolding stored
    by (simp add: insp_jan_def insp_mar_def insp_other_def sample_getTime_def)
  have listing: "getInspections sample_getTime (saveInspection sample_store insp_mar) ''1'' =
     [insp_mar, insp_jan]"
    by code_simp
  from valid times listing
    inspections_round_trip [of insp_mar sample_getTime
      "saveInspection sample_store insp_mar" "''1''"]
  show ?thesis by blast
qed

section \<open>The calendar\<close>


































section \<open>Retention stamping\<close>









end
